theory Spec2Isabelle
  imports Main
begin

section \<open>The active-window effect of ahk-wayland (activeclienteffect.cpp)\<close>

text \<open>
  The effect is a single-threaded Qt object: the compositor calls its slots, the slots
  send D-Bus signals and arm single-shot timers, and the timers call further slots.
  The embedding passes the state of the object explicitly. Everything the effect does to
  the outside is recorded in that state: the D-Bus signals it has sent, in order, and the
  single-shot timers it has armed and that have not fired yet.
\<close>

subsection \<open>The compositor as seen by the effect\<close>

text \<open>
  A \<open>Window *\<close> is an opaque handle; \<open>None\<close> is \<open>nullptr\<close>. The workspace is what
  \<open>workspace()->activeWindow()\<close>, \<open>window->resourceClass()\<close> and \<open>window->caption()\<close>
  answer at the moment a slot runs.
\<close>

type_synonym window = nat

record workspace =
  activeWindow :: "window option"
  resourceClass :: "window \<Rightarrow> string"
  caption :: "window \<Rightarrow> string"

subsection \<open>State of the effect\<close>

datatype dbus_signal = DBusSignal (signalName: string) (windowClass: string) (windowTitle: string)

text \<open>
  What a single-shot timer calls when it fires. \<open>RetryLambda attempt\<close> is the lambda of
  \<open>retryActiveWindowTitle\<close> with its captured \<open>attempt\<close>.
\<close>

datatype callback =
    OnActiveClientChanged
  | EmitInitialState
  | PollWindowTitle
  | RetryLambda int

text \<open>
  \<open>m_lastActiveWindow\<close> and \<open>m_polledWindows\<close> are the two members of the class
  (\<open>Window *m_lastActiveWindow = nullptr; QSet<Window*> m_polledWindows;\<close>). The
  \<open>QSet\<close> is kept as the list of its elements, so that the erase loop of
  \<open>pollWindowTitle\<close> can be written as the loop it is; only \<open>set\<close> of the list is
  meaningful. \<open>captionConnections\<close> are the \<open>captionChanged\<close> connections made by
  \<open>onWindowAdded\<close>, \<open>bus\<close> the signals sent so far, \<open>timers\<close> the pending single-shot
  timers with their expiry in milliseconds, earliest first, and \<open>clock\<close> the current
  time in milliseconds.
\<close>

record effect =
  m_lastActiveWindow :: "window option"
  m_polledWindows :: "window list"
  captionConnections :: "window list"
  bus :: "dbus_signal list"
  timers :: "(nat \<times> callback) list"
  clock :: nat

subsection \<open>QSet operations\<close>

definition qset_insert :: "window \<Rightarrow> window list \<Rightarrow> window list" where
  "qset_insert w ws = (if w \<in> set ws then ws else ws @ [w])"

definition qset_remove :: "window \<Rightarrow> window list \<Rightarrow> window list" where
  "qset_remove w ws = removeAll w ws"

definition qset_contains :: "window list \<Rightarrow> window \<Rightarrow> bool" where
  "qset_contains ws w = (w \<in> set ws)"

subsection \<open>Sending and scheduling\<close>

definition sendDBusSignal :: "string \<Rightarrow> string \<Rightarrow> string \<Rightarrow> effect \<Rightarrow> effect" where
  "sendDBusSignal name cls title st = st\<lparr>bus := bus st @ [DBusSignal name cls title]\<rparr>"

text \<open>
  Pending timers are ordered by expiry; a new timer goes behind the pending ones that
  expire at the same time.
\<close>

fun insert_timer :: "nat \<times> callback \<Rightarrow> (nat \<times> callback) list \<Rightarrow> (nat \<times> callback) list" where
  "insert_timer x [] = [x]"
| "insert_timer x (y # ys) = (if fst x < fst y then x # y # ys else y # insert_timer x ys)"

definition singleShot :: "nat \<Rightarrow> callback \<Rightarrow> effect \<Rightarrow> effect" where
  "singleShot msec cb st = st\<lparr>timers := insert_timer (clock st + msec, cb) (timers st)\<rparr>"

subsection \<open>The slots\<close>

definition startsWith :: "string \<Rightarrow> string \<Rightarrow> bool" where
  "startsWith str s = (take (length s) str = s)"

definition hasProblematicTitle :: "string \<Rightarrow> bool" where
  "hasProblematicTitle title = (title = [] \<or> startsWith title ''_'')"

text \<open>
  \<open>int delay = 50 * (1 << (attempt - 1))\<close>. The function is reached with
  \<open>1 \<le> attempt \<le> 3\<close> only (larger attempts return before, and the calls are
  \<open>retryActiveWindowTitle(1)\<close> and \<open>retryActiveWindowTitle(attempt + 1)\<close>), so the
  32-bit \<open>int\<close> does not overflow and the shift count is not negative.
\<close>

definition retry_delay :: "int \<Rightarrow> int" where
  "retry_delay attempt = 50 * push_bit (nat (attempt - 1)) 1"

definition retryActiveWindowTitle :: "workspace \<Rightarrow> int \<Rightarrow> effect \<Rightarrow> effect" where
  "retryActiveWindowTitle ws attempt st =
     (case m_lastActiveWindow st of
        None \<Rightarrow> st
      | Some w \<Rightarrow>
          if m_lastActiveWindow st \<noteq> activeWindow ws then
            st\<lparr>m_polledWindows := qset_remove w (m_polledWindows st),
               m_lastActiveWindow := None\<rparr>
          else if attempt > 3 then
            singleShot 500 PollWindowTitle st
          else
            singleShot (nat (retry_delay attempt)) (RetryLambda attempt) st)"

text \<open>The lambda armed by \<open>retryActiveWindowTitle\<close>, run when its timer fires.\<close>

definition retryLambda :: "workspace \<Rightarrow> int \<Rightarrow> effect \<Rightarrow> effect" where
  "retryLambda ws attempt st =
     (case m_lastActiveWindow st of
        None \<Rightarrow> st
      | Some w \<Rightarrow>
          let windowClass = resourceClass ws w;
              windowTitle = caption ws w
          in if \<not> hasProblematicTitle windowTitle \<and> windowTitle \<noteq> windowClass then
               (sendDBusSignal ''Changed'' windowClass windowTitle st)
                 \<lparr>m_polledWindows := qset_remove w (m_polledWindows st),
                  m_lastActiveWindow := None\<rparr>
             else retryActiveWindowTitle ws (attempt + 1) st)"

definition onActiveClientChanged :: "workspace \<Rightarrow> effect \<Rightarrow> effect" where
  "onActiveClientChanged ws st =
     (case activeWindow ws of
        None \<Rightarrow> st
      | Some window \<Rightarrow>
          let windowClass = resourceClass ws window;
              windowTitle = caption ws window;
              st1 = sendDBusSignal ''Changed'' windowClass windowTitle st
          in if hasProblematicTitle windowTitle \<or> windowTitle = windowClass then
               retryActiveWindowTitle ws 1
                 (st1\<lparr>m_lastActiveWindow := Some window,
                      m_polledWindows := qset_insert window (m_polledWindows st1)\<rparr>)
             else st1\<lparr>m_lastActiveWindow := None\<rparr>)"

text \<open>
  The clean-up loop of \<open>pollWindowTitle\<close>: walk the set and erase every element that
  is not the active window.
\<close>

fun erase_inactive :: "window option \<Rightarrow> window list \<Rightarrow> window list" where
  "erase_inactive a [] = []"
| "erase_inactive a (w # ws) =
     (if Some w \<noteq> a then erase_inactive a ws else w # erase_inactive a ws)"

definition pollWindowTitle :: "workspace \<Rightarrow> effect \<Rightarrow> effect" where
  "pollWindowTitle ws st =
     (let st1 = st\<lparr>m_polledWindows := erase_inactive (activeWindow ws) (m_polledWindows st)\<rparr>
      in case activeWindow ws of
           None \<Rightarrow> st1
         | Some w \<Rightarrow>
             if qset_contains (m_polledWindows st1) w then
               let windowClass = resourceClass ws w;
                   windowTitle = caption ws w
               in if \<not> hasProblematicTitle windowTitle \<and> windowTitle \<noteq> windowClass then
                    (sendDBusSignal ''Changed'' windowClass windowTitle st1)
                      \<lparr>m_polledWindows := qset_remove w (m_polledWindows st1)\<rparr>
                  else singleShot 500 PollWindowTitle st1
             else st1)"

text \<open>The lambda that \<open>onWindowAdded\<close> connects to \<open>captionChanged\<close> of \<open>window\<close>.\<close>

definition captionChangedLambda :: "workspace \<Rightarrow> window \<Rightarrow> effect \<Rightarrow> effect" where
  "captionChangedLambda ws window st =
     (let windowClass = resourceClass ws window;
          windowTitle = caption ws window
      in if Some window = activeWindow ws then
           sendDBusSignal ''Changed'' windowClass windowTitle
             (if qset_contains (m_polledWindows st) window \<and> \<not> hasProblematicTitle windowTitle
              then st\<lparr>m_polledWindows := qset_remove window (m_polledWindows st)\<rparr>
              else st)
         else st)"

definition onWindowAdded :: "workspace \<Rightarrow> window option \<Rightarrow> effect \<Rightarrow> effect" where
  "onWindowAdded ws wp st =
     (case wp of
        None \<Rightarrow> st
      | Some window \<Rightarrow>
          (sendDBusSignal ''Created'' (resourceClass ws window) (caption ws window) st)
            \<lparr>captionConnections := captionConnections st @ [window]\<rparr>)"

definition onWindowRemoved :: "workspace \<Rightarrow> window option \<Rightarrow> effect \<Rightarrow> effect" where
  "onWindowRemoved ws wp st =
     (case wp of
        None \<Rightarrow> st
      | Some window \<Rightarrow>
          let st1 = st\<lparr>m_polledWindows := qset_remove window (m_polledWindows st)\<rparr>;
              st2 = (if m_lastActiveWindow st1 = Some window
                     then st1\<lparr>m_lastActiveWindow := None\<rparr> else st1);
              st3 = sendDBusSignal ''Destroyed'' (resourceClass ws window) (caption ws window) st2
          in singleShot 0 OnActiveClientChanged st3)"

definition emitInitialState :: "workspace \<Rightarrow> effect \<Rightarrow> effect" where
  "emitInitialState ws st =
     (case activeWindow ws of
        None \<Rightarrow> st
      | Some window \<Rightarrow>
          sendDBusSignal ''Initial'' (resourceClass ws window) (caption ws window) st)"

text \<open>The constructor: nothing tracked, and \<open>emitInitialState\<close> armed with zero delay.\<close>

definition ActiveClientEffect :: effect where
  "ActiveClientEffect =
     singleShot 0 EmitInitialState
       \<lparr>m_lastActiveWindow = None, m_polledWindows = [], captionConnections = [],
        bus = [], timers = [], clock = 0\<rparr>"

subsection \<open>The event loop\<close>

definition dispatch :: "workspace \<Rightarrow> callback \<Rightarrow> effect \<Rightarrow> effect" where
  "dispatch ws cb st =
     (case cb of
        OnActiveClientChanged \<Rightarrow> onActiveClientChanged ws st
      | EmitInitialState \<Rightarrow> emitInitialState ws st
      | PollWindowTitle \<Rightarrow> pollWindowTitle ws st
      | RetryLambda attempt \<Rightarrow> retryLambda ws attempt st)"

text \<open>
  The earliest pending timer fires: time moves to its expiry (or stays, when the timer is
  already overdue) and its callback runs. With no timer pending nothing happens.
\<close>

definition fire :: "workspace \<Rightarrow> effect \<Rightarrow> effect" where
  "fire ws st =
     (case timers st of
        [] \<Rightarrow> st
      | (t, cb) # rest \<Rightarrow> dispatch ws cb (st\<lparr>clock := max (clock st) t, timers := rest\<rparr>))"

text \<open>
  \<open>captionChanged\<close> of window \<open>w\<close> is emitted: every connection made for \<open>w\<close> runs its
  lambda, in the order the connections were made.
\<close>

fun emitCaptionChanged :: "workspace \<Rightarrow> window \<Rightarrow> window list \<Rightarrow> effect \<Rightarrow> effect" where
  "emitCaptionChanged ws w [] st = st"
| "emitCaptionChanged ws w (c # cs) st =
     emitCaptionChanged ws w cs (if c = w then captionChangedLambda ws w st else st)"

text \<open>
  What the event loop can deliver to the effect: the three workspace signals the
  constructor connects, a caption change of a window, the passing of time, and the
  expiry of the earliest timer.
\<close>

datatype event =
    WindowActivated
  | WindowAdded "window option"
  | WindowRemoved "window option"
  | CaptionChanged window
  | Elapse nat
  | Timeout

definition deliver :: "workspace \<Rightarrow> event \<Rightarrow> effect \<Rightarrow> effect" where
  "deliver ws ev st =
     (case ev of
        WindowActivated \<Rightarrow> onActiveClientChanged ws st
      | WindowAdded w \<Rightarrow> onWindowAdded ws w st
      | WindowRemoved w \<Rightarrow> onWindowRemoved ws w st
      | CaptionChanged w \<Rightarrow> emitCaptionChanged ws w (captionConnections st) st
      | Elapse d \<Rightarrow> st\<lparr>clock := clock st + d\<rparr>
      | Timeout \<Rightarrow> fire ws st)"

fun run :: "(workspace \<times> event) list \<Rightarrow> effect \<Rightarrow> effect" where
  "run [] st = st"
| "run ((ws, ev) # tr) st = run tr (deliver ws ev st)"

text \<open>
  A title is usable when it is not problematic and differs from the class: the test the
  retry lambda and the poll make before they report a better title.
\<close>

definition usable :: "workspace \<Rightarrow> window \<Rightarrow> bool" where
  "usable ws w = (\<not> hasProblematicTitle (caption ws w) \<and> caption ws w \<noteq> resourceClass ws w)"

subsection \<open>The retry schedule\<close>

text \<open>
  Time of the \<open>k\<close>-th check after an activation, in milliseconds, and what runs at it:
  the retry lambda for the first three checks, the poll afterwards.
\<close>

definition check_time :: "nat \<Rightarrow> nat" where
  "check_time k =
     (if k = 1 then 50 else if k = 2 then 150 else if k = 3 then 350 else 350 + 500 * (k - 3))"

definition check_kind :: "nat \<Rightarrow> callback" where
  "check_kind k = (if k \<le> 3 then RetryLambda (int k) else PollWindowTitle)"

subsection \<open>The timer queue, for the proofs\<close>

text \<open>
  The queue is ordered by expiry. \<open>work_before p ts\<close> bounds the number of expiries that
  can come before the pending timer \<open>p\<close>: every timer ahead of \<open>p\<close> counts once for
  itself and once for each 50 ms between its expiry and that of \<open>p\<close>, 50 ms being the
  shortest delay a timer callback arms. \<open>tracking w s\<close> says that \<open>w\<close> is the window the
  effect retries and polls.
\<close>

definition by_expiry :: "(nat \<times> callback) list \<Rightarrow> bool" where
  "by_expiry ts = sorted_wrt (\<lambda>x y. fst x \<le> fst y) ts"

definition work_before :: "nat \<times> callback \<Rightarrow> (nat \<times> callback) list \<Rightarrow> nat" where
  "work_before p ts =
     sum_list (map (\<lambda>x. Suc ((fst p - fst x) div 50)) (takeWhile (\<lambda>x. x \<noteq> p) ts))"

definition tracking :: "window \<Rightarrow> effect \<Rightarrow> bool" where
  "tracking w s =
     (m_lastActiveWindow s = Some w \<and> w \<in> set (m_polledWindows s) \<and> by_expiry (timers s))"

subsection \<open>Concrete workspaces and states\<close>

text \<open>
  Window 1 is a Firefox window, window 2 a terminal. \<open>idle\<close> is the effect with nothing
  tracked and no timer pending.
\<close>

definition idle :: effect where
  "idle = \<lparr>m_lastActiveWindow = None, m_polledWindows = [], captionConnections = [],
           bus = [], timers = [], clock = 0\<rparr>"

definition firefox_blank :: workspace where
  "firefox_blank = \<lparr>activeWindow = Some 1, resourceClass = (\<lambda>w. ''firefox''),
                    caption = (\<lambda>w. [])\<rparr>"

definition firefox_titled :: workspace where
  "firefox_titled = \<lparr>activeWindow = Some 1, resourceClass = (\<lambda>w. ''firefox''),
                     caption = (\<lambda>w. ''Mozilla Firefox'')\<rparr>"

definition firefox_unfocused :: workspace where
  "firefox_unfocused = \<lparr>activeWindow = None, resourceClass = (\<lambda>w. ''firefox''),
                        caption = (\<lambda>w. ''Mozilla Firefox'')\<rparr>"

definition konsole_focused :: workspace where
  "konsole_focused =
     \<lparr>activeWindow = Some 2,
      resourceClass = (\<lambda>w. if w = 2 then ''konsole'' else ''firefox''),
      caption = (\<lambda>w. if w = 2 then ''bash'' else [])\<rparr>"

definition code_blank :: workspace where
  "code_blank = \<lparr>activeWindow = Some 1, resourceClass = (\<lambda>w. ''code''),
                 caption = (\<lambda>w. [])\<rparr>"

definition code_placeholder :: workspace where
  "code_placeholder = \<lparr>activeWindow = Some 1, resourceClass = (\<lambda>w. ''code''),
                       caption = (\<lambda>w. ''code'')\<rparr>"

text \<open>Window 1 has been created and activated with an empty title: its first retry is armed.\<close>

definition firefox_retrying :: effect where
  "firefox_retrying =
     run [(firefox_blank, WindowAdded (Some 1)), (firefox_blank, WindowActivated)] idle"

text \<open>The same for window 1 of the editor, created and activated with an empty title.\<close>

definition code_retrying :: effect where
  "code_retrying =
     run [(code_blank, WindowAdded (Some 1)), (code_blank, WindowActivated)] idle"

text \<open>
  The terminal and a third window, of the editor, each active with an empty title.
\<close>

definition konsole_blank :: workspace where
  "konsole_blank =
     \<lparr>activeWindow = Some 2,
      resourceClass = (\<lambda>w. if w = 2 then ''konsole'' else ''firefox''),
      caption = (\<lambda>w. [])\<rparr>"

definition editor_blank :: workspace where
  "editor_blank = \<lparr>activeWindow = Some 3, resourceClass = (\<lambda>w. ''code''),
                   caption = (\<lambda>w. [])\<rparr>"

text \<open>
  From the constructor: start-up with no window, Firefox activated with an empty title
  at time 0, its first quick check at 50 ms, and 50 ms more. The second quick check of
  Firefox is pending at 150 ms when the trace ends, at 100 ms.
\<close>

definition firefox_second_check_pending :: "(workspace \<times> event) list" where
  "firefox_second_check_pending =
     [(firefox_unfocused, Timeout), (firefox_blank, WindowActivated),
      (firefox_blank, Timeout), (konsole_blank, Elapse 50)]"

section \<open>Properties\<close>

subsection \<open>Basic facts about the set and the schedule\<close>

lemma set_erase_inactive: "set (erase_inactive a xs) = {x \<in> set xs. Some x = a}"
  by (induction xs) auto

lemma set_qset_insert: "set (qset_insert w xs) = insert w (set xs)"
  by (auto simp: qset_insert_def)

lemma set_qset_remove: "set (qset_remove w xs) = set xs - {w}"
  by (auto simp: qset_remove_def)

lemma check_time_Suc:
  "check_time (Suc k) =
     (if k = 0 then 50 else if k = 1 then 150 else if k = 2 then 350 else check_time k + 500)"
  by (auto simp: check_time_def)

lemma check_time_mono: "0 < k \<Longrightarrow> check_time k \<le> check_time (Suc k)"
  by (auto simp: check_time_def)

lemma firefox_retrying_eq:
  "firefox_retrying =
     \<lparr>m_lastActiveWindow = Some 1, m_polledWindows = [1], captionConnections = [1],
      bus = [DBusSignal ''Created'' ''firefox'' [], DBusSignal ''Changed'' ''firefox'' []],
      timers = [(50, RetryLambda 1)], clock = 0\<rparr>"
  by (simp add: firefox_retrying_def idle_def firefox_blank_def deliver_def onWindowAdded_def
      onActiveClientChanged_def sendDBusSignal_def hasProblematicTitle_def Let_def
      retryActiveWindowTitle_def singleShot_def retry_delay_def qset_insert_def)

text \<open>
  Start-up with no window active: the timer armed by the constructor fires, no
  \<open>Initial\<close> signal is sent, and the effect is \<open>idle\<close>.
\<close>

lemma startup_without_window: "fire firefox_unfocused ActiveClientEffect = idle"
  by (simp add: ActiveClientEffect_def singleShot_def fire_def dispatch_def
      emitInitialState_def firefox_unfocused_def idle_def)

subsection \<open>The title classifier\<close>

text \<open>
  C5. \<open>hasProblematicTitle\<close> is true exactly when the title is empty or its first
  character is the underscore. It is a function of the title alone: it reads no state and
  has no failing case.
\<close>

theorem hasProblematicTitle_iff:
  "hasProblematicTitle title = (title = [] \<or> (\<exists>rest. title = CHR ''_'' # rest))"
  by (cases title) (auto simp: hasProblematicTitle_def startsWith_def)

subsection \<open>Activation\<close>

text \<open>
  C10. When the activation handler runs while no window is active, it sends nothing and
  leaves the whole state of the effect, \<open>m_lastActiveWindow\<close> and \<open>m_polledWindows\<close>
  included, as it was.
\<close>

theorem onActiveClientChanged_no_window:
  "activeWindow ws = None \<Longrightarrow> onActiveClientChanged ws st = st"
  by (simp add: onActiveClientChanged_def)

text \<open>The same at a concrete state: Firefox is being retried and the focus is on no window.\<close>

theorem onActiveClientChanged_no_window_witness:
  "activeWindow firefox_unfocused = None \<and>
   onActiveClientChanged firefox_unfocused firefox_retrying = firefox_retrying"
  using onActiveClientChanged_no_window [of firefox_unfocused firefox_retrying]
  by (simp add: firefox_unfocused_def)

text \<open>
  C2. When window \<open>w\<close> is activated, exactly one \<open>Changed\<close> signal with the current class
  and title of \<open>w\<close> is sent at once. If the title is problematic or equals the class, \<open>w\<close>
  becomes \<open>m_lastActiveWindow\<close>, is added to \<open>m_polledWindows\<close> and the first retry is
  armed; otherwise \<open>m_lastActiveWindow\<close> is cleared, the set is unchanged and no timer is
  armed.
\<close>

theorem onActiveClientChanged_window:
  assumes "activeWindow ws = Some w"
  shows "let st' = onActiveClientChanged ws st; c = resourceClass ws w; t = caption ws w in
     bus st' = bus st @ [DBusSignal ''Changed'' c t] \<and>
     (if hasProblematicTitle t \<or> t = c
      then m_lastActiveWindow st' = Some w \<and>
           set (m_polledWindows st') = insert w (set (m_polledWindows st)) \<and>
           timers st' = insert_timer (clock st + 50, RetryLambda 1) (timers st)
      else m_lastActiveWindow st' = None \<and>
           m_polledWindows st' = m_polledWindows st \<and>
           timers st' = timers st)"
  using assms
  by (simp add: onActiveClientChanged_def Let_def retryActiveWindowTitle_def sendDBusSignal_def
      singleShot_def retry_delay_def set_qset_insert)

text \<open>Both branches at concrete windows: Firefox with an empty title, then with its real one.\<close>

theorem onActiveClientChanged_window_witness:
  "activeWindow firefox_blank = Some 1 \<and>
   bus (onActiveClientChanged firefox_blank idle) = [DBusSignal ''Changed'' ''firefox'' []] \<and>
   m_lastActiveWindow (onActiveClientChanged firefox_blank idle) = Some 1 \<and>
   set (m_polledWindows (onActiveClientChanged firefox_blank idle)) = {1} \<and>
   timers (onActiveClientChanged firefox_blank idle) = [(50, RetryLambda 1)] \<and>
   activeWindow firefox_titled = Some 1 \<and>
   bus (onActiveClientChanged firefox_titled idle)
     = [DBusSignal ''Changed'' ''firefox'' ''Mozilla Firefox''] \<and>
   m_lastActiveWindow (onActiveClientChanged firefox_titled idle) = None \<and>
   m_polledWindows (onActiveClientChanged firefox_titled idle) = [] \<and>
   timers (onActiveClientChanged firefox_titled idle) = []"
  using onActiveClientChanged_window [of firefox_blank 1 idle]
    onActiveClientChanged_window [of firefox_titled 1 idle]
  by (simp add: firefox_blank_def firefox_titled_def idle_def hasProblematicTitle_def
      startsWith_def Let_def)

subsection \<open>Caption changes of a window that is not active\<close>

lemma captionChangedLambda_inactive:
  "activeWindow ws \<noteq> Some w \<Longrightarrow> captionChangedLambda ws w st = st"
  by (auto simp: captionChangedLambda_def Let_def)

lemma emitCaptionChanged_inactive:
  "activeWindow ws \<noteq> Some w \<Longrightarrow> emitCaptionChanged ws w cs st = st"
  by (induction cs arbitrary: st) (simp_all add: captionChangedLambda_inactive)

text \<open>
  C8. A caption change delivered for a window that is not the active window sends nothing
  and changes nothing, however often it is repeated: after any sequence of such
  deliveries the effect is in the state it started from, so the new caption is kept
  nowhere for a later activation.
\<close>

theorem background_caption_changes_dropped:
  assumes "\<forall>(ws, ev) \<in> set tr. \<exists>w. ev = CaptionChanged w \<and> activeWindow ws \<noteq> Some w"
  shows "run tr st = st"
  using assms
proof (induction tr arbitrary: st)
  case Nil
  show ?case by simp
next
  case (Cons a tr)
  obtain ws ev where a: "a = (ws, ev)" by (cases a)
  from Cons.prems a obtain w where w: "ev = CaptionChanged w" "activeWindow ws \<noteq> Some w"
    by auto
  have "deliver ws ev st = st"
    using w by (simp add: deliver_def emitCaptionChanged_inactive)
  moreover have "run tr st = st"
    using Cons by simp
  ultimately show ?case using a by simp
qed

text \<open>
  Three caption changes of Firefox (window 1, connected, being retried) while the
  terminal (window 2) has the focus.
\<close>

theorem background_caption_changes_dropped_witness:
  "activeWindow konsole_focused \<noteq> Some 1 \<and>
   captionConnections firefox_retrying = [1] \<and>
   run [(konsole_focused, CaptionChanged 1), (konsole_focused, CaptionChanged 1),
        (konsole_focused, CaptionChanged 1)] firefox_retrying = firefox_retrying"
  using background_caption_changes_dropped
    [of "[(konsole_focused, CaptionChanged 1), (konsole_focused, CaptionChanged 1),
          (konsole_focused, CaptionChanged 1)]" firefox_retrying]
  by (simp add: konsole_focused_def firefox_retrying_eq)

subsection \<open>Destruction\<close>

text \<open>
  C7. When window \<open>w\<close> is destroyed, exactly one \<open>Destroyed\<close> signal with the class and
  title \<open>w\<close> has at that moment is sent, \<open>w\<close> leaves \<open>m_polledWindows\<close>,
  \<open>m_lastActiveWindow\<close> is cleared if it was \<open>w\<close> and kept otherwise, and the activation
  handler is armed with zero delay: a timer that expires at the current time and whose
  callback is \<open>onActiveClientChanged\<close>, which is what runs next when no other timer is
  pending.
\<close>

theorem onWindowRemoved_window:
  "let st' = onWindowRemoved ws (Some w) st in
     bus st' = bus st @ [DBusSignal ''Destroyed'' (resourceClass ws w) (caption ws w)] \<and>
     set (m_polledWindows st') = set (m_polledWindows st) - {w} \<and>
     m_lastActiveWindow st' =
       (if m_lastActiveWindow st = Some w then None else m_lastActiveWindow st) \<and>
     clock st' = clock st \<and>
     timers st' = insert_timer (clock st, OnActiveClientChanged) (timers st) \<and>
     (timers st = [] \<longrightarrow> fire ws' st' = onActiveClientChanged ws' (st'\<lparr>timers := []\<rparr>))"
  by (simp add: onWindowRemoved_def Let_def sendDBusSignal_def singleShot_def set_qset_remove
      fire_def dispatch_def)

text \<open>
  Firefox is destroyed while the effect is idle but for it; the focus then is on the
  terminal, which the re-run activation handler reports.
\<close>

theorem onWindowRemoved_window_witness:
  "timers (idle\<lparr>m_lastActiveWindow := Some 1, m_polledWindows := [1]\<rparr>) = [] \<and>
   bus (onWindowRemoved firefox_titled (Some 1)
          (idle\<lparr>m_lastActiveWindow := Some 1, m_polledWindows := [1]\<rparr>))
     = [DBusSignal ''Destroyed'' ''firefox'' ''Mozilla Firefox''] \<and>
   m_polledWindows (onWindowRemoved firefox_titled (Some 1)
          (idle\<lparr>m_lastActiveWindow := Some 1, m_polledWindows := [1]\<rparr>)) = [] \<and>
   m_lastActiveWindow (onWindowRemoved firefox_titled (Some 1)
          (idle\<lparr>m_lastActiveWindow := Some 1, m_polledWindows := [1]\<rparr>)) = None \<and>
   timers (onWindowRemoved firefox_titled (Some 1)
          (idle\<lparr>m_lastActiveWindow := Some 1, m_polledWindows := [1]\<rparr>))
     = [(0, OnActiveClientChanged)] \<and>
   bus (fire konsole_focused (onWindowRemoved firefox_titled (Some 1)
          (idle\<lparr>m_lastActiveWindow := Some 1, m_polledWindows := [1]\<rparr>)))
     = [DBusSignal ''Destroyed'' ''firefox'' ''Mozilla Firefox'',
        DBusSignal ''Changed'' ''konsole'' ''bash'']"
  using onWindowRemoved_window
    [of firefox_titled 1 "idle\<lparr>m_lastActiveWindow := Some 1, m_polledWindows := [1]\<rparr>"
        konsole_focused]
  by (simp add: idle_def firefox_titled_def konsole_focused_def Let_def qset_remove_def
      onWindowRemoved_def singleShot_def sendDBusSignal_def onActiveClientChanged_def
      hasProblematicTitle_def startsWith_def)

subsection \<open>The retry sequence\<close>

text \<open>Facts about the queue.\<close>

lemma set_insert_timer: "set (insert_timer x xs) = insert x (set xs)"
  by (induction xs) auto

lemma by_expiry_insert_timer: "by_expiry xs \<Longrightarrow> by_expiry (insert_timer x xs)"
  unfolding by_expiry_def
  by (induction xs) (auto simp: set_insert_timer)

lemma work_before_insert_timer:
  "p \<in> set xs \<Longrightarrow> by_expiry xs \<Longrightarrow>
   work_before p (insert_timer y xs) =
     (if fst y < fst p then Suc ((fst p - fst y) div 50) else 0) + work_before p xs"
proof (induction xs)
  case Nil
  then show ?case by simp
next
  case (Cons x xs)
  show ?case
  proof (cases "x = p")
    case True
    then show ?thesis by (auto simp: work_before_def)
  next
    case False
    then have "p \<in> set xs" using Cons.prems by simp
    moreover have "by_expiry xs" using Cons.prems by (simp add: by_expiry_def)
    moreover have "fst x \<le> fst p" using Cons.prems \<open>p \<in> set xs\<close> by (auto simp: by_expiry_def)
    ultimately show ?thesis using Cons.IH False
      by (auto simp: work_before_def)
  qed
qed

text \<open>No callback arms a timer less than 50 ms ahead.\<close>

lemma retry_delay_ge: "50 \<le> nat (retry_delay a)"
proof -
  have "(1::int) \<le> 2 ^ nat (a - 1)" by simp
  then have "(50::int) \<le> 50 * 2 ^ nat (a - 1)" by simp
  then have "nat 50 \<le> nat (50 * 2 ^ nat (a - 1))" by (rule nat_mono)
  then show ?thesis by (simp add: retry_delay_def push_bit_eq_mult)
qed

text \<open>
  While \<open>w\<close> is active with an unusable title and tracked, every timer callback keeps it
  tracked, leaves the clock alone and arms at most one timer, 50 ms ahead or more.
\<close>

lemma dispatch_tracking:
  assumes act: "activeWindow ws = Some w" and bad: "\<not> usable ws w" and tr: "tracking w s"
  shows "tracking w (dispatch ws cb s) \<and> clock (dispatch ws cb s) = clock s \<and>
         (timers (dispatch ws cb s) = timers s \<or>
          (\<exists>d cb'. 50 \<le> d \<and> timers (dispatch ws cb s) = insert_timer (clock s + d, cb') (timers s)))"
proof -
  have armed: "tracking w (singleShot d cb' s') \<and> clock (singleShot d cb' s') = clock s \<and>
         (timers (singleShot d cb' s') = timers s \<or>
          (\<exists>e c. 50 \<le> e \<and> timers (singleShot d cb' s') = insert_timer (clock s + e, c) (timers s)))"
    if "tracking w s'" "clock s' = clock s" "timers s' = timers s" "50 \<le> d" for d cb' s'
  proof -
    have "timers (singleShot d cb' s') = insert_timer (clock s + d, cb') (timers s)"
      using that by (simp add: singleShot_def)
    moreover have "tracking w (singleShot d cb' s')"
      using that by (simp add: tracking_def singleShot_def by_expiry_insert_timer)
    moreover have "clock (singleShot d cb' s') = clock s"
      using that by (simp add: singleShot_def)
    ultimately show ?thesis using that(4) by blast
  qed
  show ?thesis
  proof (cases cb)
    case OnActiveClientChanged
    let ?s' = "s\<lparr>bus := bus s @ [DBusSignal ''Changed'' (resourceClass ws w) (caption ws w)],
             m_lastActiveWindow := Some w,
             m_polledWindows := qset_insert w (m_polledWindows s)\<rparr>"
    have eq: "dispatch ws cb s = singleShot 50 (RetryLambda 1) ?s'"
      using act bad OnActiveClientChanged
      by (auto simp: dispatch_def onActiveClientChanged_def Let_def usable_def sendDBusSignal_def
          retryActiveWindowTitle_def retry_delay_def singleShot_def)
    show ?thesis unfolding eq
      by (rule armed) (use tr in \<open>simp_all add: tracking_def set_qset_insert\<close>)
  next
    case EmitInitialState
    then show ?thesis using act tr
      by (simp add: dispatch_def emitInitialState_def sendDBusSignal_def tracking_def)
  next
    case PollWindowTitle
    let ?s' = "s\<lparr>m_polledWindows := erase_inactive (Some w) (m_polledWindows s)\<rparr>"
    have eq: "dispatch ws cb s = singleShot 500 PollWindowTitle ?s'"
      using act bad tr PollWindowTitle
      by (auto simp: dispatch_def pollWindowTitle_def Let_def usable_def tracking_def
          qset_contains_def set_erase_inactive)
    show ?thesis unfolding eq
      by (rule armed) (use tr in \<open>simp_all add: tracking_def set_erase_inactive\<close>)
  next
    case (RetryLambda a)
    have eq: "dispatch ws cb s =
          (if a + 1 > 3 then singleShot 500 PollWindowTitle s
           else singleShot (nat (retry_delay (a + 1))) (RetryLambda (a + 1)) s)"
      using act bad tr RetryLambda
      by (auto simp: dispatch_def retryLambda_def Let_def usable_def tracking_def
          retryActiveWindowTitle_def)
    show ?thesis
    proof (cases "a + 1 > 3")
      case True
      then have eq': "dispatch ws cb s = singleShot 500 PollWindowTitle s" using eq by simp
      show ?thesis unfolding eq' by (rule armed) (use tr in simp_all)
    next
      case False
      then have eq': "dispatch ws cb s
          = singleShot (nat (retry_delay (a + 1))) (RetryLambda (a + 1)) s" using eq by simp
      show ?thesis unfolding eq' by (rule armed) (use tr retry_delay_ge in simp_all)
    qed
  qed
qed

text \<open>
  A check of the schedule that fails sends nothing and arms the next check of the
  schedule: the delay is the difference of their times.
\<close>

lemma dispatch_check:
  assumes act: "activeWindow ws = Some w" and bad: "\<not> usable ws w" and tr: "tracking w s"
  shows "timers (dispatch ws (check_kind (Suc k)) s)
           = insert_timer (clock s + (check_time (Suc (Suc k)) - check_time (Suc k)),
                           check_kind (Suc (Suc k))) (timers s) \<and>
         bus (dispatch ws (check_kind (Suc k)) s) = bus s"
proof (cases "k < 3")
  case True
  then have "k = 0 \<or> k = 1 \<or> k = 2" by arith
  then show ?thesis using act bad tr
    by (auto simp: check_kind_def check_time_def dispatch_def retryLambda_def Let_def usable_def
        tracking_def retryActiveWindowTitle_def singleShot_def retry_delay_def add.commute)
next
  case False
  then show ?thesis using act bad tr
    by (auto simp: check_kind_def check_time_Suc dispatch_def pollWindowTitle_def Let_def
        usable_def tracking_def qset_contains_def set_erase_inactive singleShot_def)
qed

text \<open>
  A pending timer that is not overdue gets to the head of the queue after finitely many
  expiries, and is not overdue then: it fires at its expiry.
\<close>

lemma reach_timer:
  assumes act: "activeWindow ws = Some w" and bad: "\<not> usable ws w"
  shows "tracking w s \<Longrightarrow> p \<in> set (timers s) \<Longrightarrow> clock s \<le> fst p \<Longrightarrow>
         \<exists>n rest. tracking w ((fire ws ^^ n) s) \<and> timers ((fire ws ^^ n) s) = p # rest \<and>
                  clock ((fire ws ^^ n) s) \<le> fst p"
proof (induction "work_before p (timers s)" arbitrary: s rule: less_induct)
  case less
  from less.prems(2) obtain h rest where ts: "timers s = h # rest"
    by (cases "timers s") auto
  show ?case
  proof (cases "h = p")
    case True
    have "tracking w ((fire ws ^^ 0) s) \<and> timers ((fire ws ^^ 0) s) = p # rest \<and>
          clock ((fire ws ^^ 0) s) \<le> fst p"
      using less.prems ts True by simp
    then show ?thesis by blast
  next
    case False
    obtain t cb where h: "h = (t, cb)" by (cases h)
    let ?s1 = "s\<lparr>clock := max (clock s) t, timers := rest\<rparr>"
    have srt: "by_expiry (h # rest)" using less.prems(1) ts by (simp add: tracking_def)
    have prest: "p \<in> set rest" using less.prems(2) ts False by simp
    have tle: "t \<le> fst p" using srt prest h by (auto simp: by_expiry_def)
    have tr1: "tracking w ?s1" using less.prems(1) srt by (simp add: tracking_def by_expiry_def)
    have f: "fire ws s = dispatch ws cb ?s1" using ts h by (simp add: fire_def)
    note d = dispatch_tracking [OF act bad tr1, of cb]
    have tr': "tracking w (fire ws s)" using d f by simp
    have ck': "clock (fire ws s) \<le> fst p" using d f less.prems(3) tle by simp
    have mem': "p \<in> set (timers (fire ws s))"
      using d f prest by (auto simp: set_insert_timer)
    have w0: "work_before p (timers s) = Suc ((fst p - t) div 50) + work_before p rest"
      using ts h False by (simp add: work_before_def)
    have dec: "work_before p (timers (fire ws s)) < work_before p (timers s)"
    proof -
      from d f consider "timers (fire ws s) = rest"
        | d' cb' where "50 \<le> d'" "timers (fire ws s) = insert_timer (max (clock s) t + d', cb') rest"
        by auto
      then show ?thesis
      proof cases
        case 1
        then show ?thesis using w0 by simp
      next
        case 2
        have sr: "by_expiry rest" using srt by (simp add: by_expiry_def)
        have "work_before p (timers (fire ws s)) =
                (if max (clock s) t + d' < fst p
                 then Suc ((fst p - (max (clock s) t + d')) div 50) else 0) + work_before p rest"
          using 2 work_before_insert_timer [OF prest sr] by simp
        moreover have "Suc ((fst p - (max (clock s) t + d')) div 50) \<le> (fst p - t) div 50"
          if "max (clock s) t + d' < fst p"
        proof -
          have "fst p - (max (clock s) t + d') + 50 \<le> fst p - t"
            using that 2(1) by (simp add: max_def split: if_splits)
          then have "(fst p - (max (clock s) t + d') + 50) div 50 \<le> (fst p - t) div 50"
            by (rule div_le_mono)
          moreover have "(fst p - (max (clock s) t + d') + 50) div 50
                = Suc ((fst p - (max (clock s) t + d')) div 50)"
            by simp
          ultimately show ?thesis by simp
        qed
        ultimately show ?thesis using w0 by (auto split: if_splits)
      qed
    qed
    from less.hyps [OF dec tr' mem' ck'] obtain n rest' where
      n: "tracking w ((fire ws ^^ n) (fire ws s))"
         "timers ((fire ws ^^ n) (fire ws s)) = p # rest'"
         "clock ((fire ws ^^ n) (fire ws s)) \<le> fst p"
      by blast
    have "(fire ws ^^ Suc n) s = (fire ws ^^ n) (fire ws s)" by (simp add: funpow_swap1)
    then have "tracking w ((fire ws ^^ Suc n) s) \<and> timers ((fire ws ^^ Suc n) s) = p # rest' \<and>
          clock ((fire ws ^^ Suc n) s) \<le> fst p"
      using n by simp
    then show ?thesis by blast
  qed
qed


text \<open>Every slot keeps the queue ordered, so it is ordered in every state that is reached.\<close>

lemma by_expiry_singleShot: "by_expiry (timers st) \<Longrightarrow> by_expiry (timers (singleShot d cb st))"
  by (simp add: singleShot_def by_expiry_insert_timer)

lemma by_expiry_retryActiveWindowTitle:
  "by_expiry (timers st) \<Longrightarrow> by_expiry (timers (retryActiveWindowTitle ws a st))"
  by (auto simp: retryActiveWindowTitle_def by_expiry_singleShot split: option.splits)

lemma by_expiry_dispatch:
  assumes "by_expiry (timers st)"
  shows "by_expiry (timers (dispatch ws cb st))"
proof (cases cb)
  case OnActiveClientChanged
  then show ?thesis
    using assms
    by (auto simp: dispatch_def onActiveClientChanged_def Let_def sendDBusSignal_def
        intro!: by_expiry_retryActiveWindowTitle split: option.splits)
next
  case EmitInitialState
  then show ?thesis
    using assms
    by (auto simp: dispatch_def emitInitialState_def sendDBusSignal_def split: option.splits)
next
  case PollWindowTitle
  then show ?thesis
    using assms
    by (auto simp: dispatch_def pollWindowTitle_def Let_def sendDBusSignal_def
        intro!: by_expiry_singleShot split: option.splits)
next
  case (RetryLambda a)
  then show ?thesis
    using assms
    by (auto simp: dispatch_def retryLambda_def Let_def sendDBusSignal_def
        intro!: by_expiry_retryActiveWindowTitle split: option.splits)
qed

lemma timers_captionChangedLambda: "timers (captionChangedLambda ws w st) = timers st"
  by (simp add: captionChangedLambda_def Let_def sendDBusSignal_def)

lemma timers_emitCaptionChanged: "timers (emitCaptionChanged ws w cs st) = timers st"
  by (induction cs arbitrary: st) (simp_all add: timers_captionChangedLambda)

lemma by_expiry_deliver:
  assumes "by_expiry (timers st)"
  shows "by_expiry (timers (deliver ws ev st))"
proof (cases ev)
  case WindowActivated
  then show ?thesis
    using by_expiry_dispatch [OF assms, of ws OnActiveClientChanged]
    by (simp add: deliver_def dispatch_def)
next
  case (WindowAdded wp)
  then show ?thesis
    using assms by (auto simp: deliver_def onWindowAdded_def sendDBusSignal_def split: option.splits)
next
  case (WindowRemoved wp)
  then show ?thesis
    using assms
    by (auto simp: deliver_def onWindowRemoved_def Let_def sendDBusSignal_def
        intro!: by_expiry_singleShot split: option.splits)
next
  case (CaptionChanged w)
  then show ?thesis
    using assms by (simp add: deliver_def timers_emitCaptionChanged)
next
  case (Elapse d)
  then show ?thesis using assms by (simp add: deliver_def)
next
  case Timeout
  show ?thesis
  proof (cases "timers st")
    case Nil
    then show ?thesis using assms Timeout by (simp add: deliver_def fire_def)
  next
    case (Cons x rest)
    obtain t cb where x: "x = (t, cb)" by (cases x)
    have "by_expiry (timers (st\<lparr>clock := max (clock st) t, timers := rest\<rparr>))"
      using assms Cons by (simp add: by_expiry_def)
    then show ?thesis
      using Timeout Cons x by (simp add: deliver_def fire_def by_expiry_dispatch)
  qed
qed

lemma by_expiry_run: "by_expiry (timers st) \<Longrightarrow> by_expiry (timers (run tr st))"
  by (induction tr arbitrary: st) (auto simp: by_expiry_deliver)

lemma by_expiry_ActiveClientEffect: "by_expiry (timers ActiveClientEffect)"
  by (simp add: ActiveClientEffect_def singleShot_def by_expiry_def)

text \<open>
  Every check of the schedule that starts with an activation gets to the head of the
  queue, at a time not after its own.
\<close>

lemma schedule_reached:
  assumes act: "activeWindow ws = Some w" and bad: "\<not> usable ws w"
    and srt: "by_expiry (timers st)"
  shows "\<exists>n rest. tracking w ((fire ws ^^ n) (onActiveClientChanged ws st)) \<and>
           timers ((fire ws ^^ n) (onActiveClientChanged ws st))
             = (clock st + check_time (Suc k), check_kind (Suc k)) # rest \<and>
           clock ((fire ws ^^ n) (onActiveClientChanged ws st)) \<le> clock st + check_time (Suc k)"
proof (induction k)
  case 0
  let ?s0 = "onActiveClientChanged ws st"
  have eq: "?s0 = singleShot 50 (RetryLambda 1)
          (st\<lparr>bus := bus st @ [DBusSignal ''Changed'' (resourceClass ws w) (caption ws w)],
             m_lastActiveWindow := Some w,
             m_polledWindows := qset_insert w (m_polledWindows st)\<rparr>)"
    using act bad
    by (auto simp: onActiveClientChanged_def Let_def usable_def sendDBusSignal_def
        retryActiveWindowTitle_def retry_delay_def singleShot_def)
  have t0: "tracking w ?s0"
    using srt by (simp add: eq tracking_def singleShot_def set_qset_insert by_expiry_insert_timer)
  have m0: "(clock st + check_time (Suc 0), check_kind (Suc 0)) \<in> set (timers ?s0)"
    by (simp add: eq singleShot_def set_insert_timer check_time_def check_kind_def)
  have c0: "clock ?s0 \<le> fst (clock st + check_time (Suc 0), check_kind (Suc 0))"
    by (simp add: eq singleShot_def)
  from reach_timer [OF act bad t0 m0 c0] show ?case by simp
next
  case (Suc k)
  let ?s0 = "onActiveClientChanged ws st"
  let ?T = "clock st + check_time (Suc k)"
  let ?T' = "clock st + check_time (Suc (Suc k))"
  from Suc obtain n rest where
    tn: "tracking w ((fire ws ^^ n) ?s0)" and
    hn: "timers ((fire ws ^^ n) ?s0) = (?T, check_kind (Suc k)) # rest" and
    cn: "clock ((fire ws ^^ n) ?s0) \<le> ?T"
    by blast
  let ?sn = "(fire ws ^^ n) ?s0"
  let ?s1 = "?sn\<lparr>clock := max (clock ?sn) ?T, timers := rest\<rparr>"
  have f: "fire ws ?sn = dispatch ws (check_kind (Suc k)) ?s1"
    using hn by (simp add: fire_def)
  have t1: "tracking w ?s1"
    using tn hn by (simp add: tracking_def by_expiry_def)
  have c1: "clock ?s1 = ?T" using cn by simp
  have le: "check_time (Suc k) \<le> check_time (Suc (Suc k))"
    by (rule check_time_mono) simp
  have tf: "tracking w (fire ws ?sn)"
    using dispatch_tracking [OF act bad t1, of "check_kind (Suc k)"] f by simp
  have cf: "clock (fire ws ?sn) = ?T"
    using dispatch_tracking [OF act bad t1, of "check_kind (Suc k)"] f c1 by simp
  have "timers (fire ws ?sn)
          = insert_timer (?T + (check_time (Suc (Suc k)) - check_time (Suc k)),
                          check_kind (Suc (Suc k))) rest"
    using dispatch_check [OF act bad t1, of k] f c1 by simp
  then have mf: "(?T', check_kind (Suc (Suc k))) \<in> set (timers (fire ws ?sn))"
    using le by (simp add: set_insert_timer)
  have cf': "clock (fire ws ?sn) \<le> fst (?T', check_kind (Suc (Suc k)))"
    using cf le by simp
  from reach_timer [OF act bad tf mf cf'] obtain n' rest' where
    r: "tracking w ((fire ws ^^ n') (fire ws ?sn))"
       "timers ((fire ws ^^ n') (fire ws ?sn)) = (?T', check_kind (Suc (Suc k))) # rest'"
       "clock ((fire ws ^^ n') (fire ws ?sn)) \<le> ?T'"
    by auto
  have "(fire ws ^^ (n' + Suc n)) ?s0 = (fire ws ^^ n') ((fire ws ^^ Suc n) ?s0)"
    by (simp only: funpow_add o_apply)
  then have "(fire ws ^^ (n' + Suc n)) ?s0 = (fire ws ^^ n') (fire ws ?sn)"
    by simp
  then have "tracking w ((fire ws ^^ (n' + Suc n)) ?s0) \<and>
      timers ((fire ws ^^ (n' + Suc n)) ?s0) = (?T', check_kind (Suc (Suc k))) # rest' \<and>
      clock ((fire ws ^^ (n' + Suc n)) ?s0) \<le> ?T'"
    using r by simp
  then show ?case by blast
qed

lemma schedule_check_runs:
  assumes act: "activeWindow ws = Some w" and bad: "\<not> usable ws w"
    and tn: "tracking w s"
    and hn: "timers s = (T, check_kind (Suc k)) # rest"
    and cn: "clock s \<le> T"
  shows "clock (fire ws s) = T \<and> bus (fire ws s) = bus s"
proof -
  let ?s1 = "s\<lparr>clock := max (clock s) T, timers := rest\<rparr>"
  have f: "fire ws s = dispatch ws (check_kind (Suc k)) ?s1"
    using hn by (simp add: fire_def)
  have t1: "tracking w ?s1"
    using tn hn by (simp add: tracking_def by_expiry_def)
  show ?thesis
    using dispatch_tracking [OF act bad t1, of "check_kind (Suc k)"]
      dispatch_check [OF act bad t1, of k] f cn by simp
qed

text \<open>A poll arms nothing unless the active window is in the set with an unusable title.\<close>

lemma poll_stops:
  assumes "\<not> (\<exists>h. activeWindow ws = Some h \<and> h \<in> set (m_polledWindows s) \<and> \<not> usable ws h)"
  shows "timers (pollWindowTitle ws s) = timers s"
  using assms
  by (auto simp: pollWindowTitle_def usable_def Let_def sendDBusSignal_def
      singleShot_def qset_contains_def set_erase_inactive split: option.splits)

text \<open>
  C1, as the code has it. The delays of the three quick checks are 50, 100 and 200 ms
  (\<open>50 * 2^(attempt-1)\<close>): the activation of a window \<open>w\<close> with an unusable title
  arms the first quick check 50 ms ahead, the first and second quick checks, when they
  fail, arm the next 100 and 200 ms ahead, the third arms the poll 500 ms ahead, and a
  poll that fails arms the next poll 500 ms ahead and sends nothing. So the checks come
  50, 150 and 350 ms after the activation, and the poll follows every 500 ms, at 850,
  1350, ... ms. For every window
  \<open>w\<close> activated with an unusable title (empty, placeholder-prefixed or equal to its
  class), in any state the effect can be in after any sequence of events since its
  construction, and as long as \<open>w\<close> stays active and its title stays as it is: for every
  \<open>k\<close>, after some number of timer expiries the timer at the head of the queue is check
  number \<open>k+1\<close> of this schedule, it runs at elapsed time \<open>check_time (k+1)\<close>, and it sends
  nothing. A poll arms no further poll once the active window is not in the set with an
  unusable title: the title became usable, the window stopped being active, or it was
  destroyed and so removed from the set.
\<close>

theorem retry_schedule:
  assumes "activeWindow ws = Some w" and "\<not> usable ws w"
  shows "retry_delay 1 = 50 \<and> retry_delay 2 = 100 \<and> retry_delay 3 = 200 \<and>
     timers (onActiveClientChanged ws s)
       = insert_timer (clock s + 50, RetryLambda 1) (timers s) \<and>
     (m_lastActiveWindow s = Some w \<longrightarrow>
        retryLambda ws 1 s = singleShot 100 (RetryLambda 2) s \<and>
        retryLambda ws 2 s = singleShot 200 (RetryLambda 3) s \<and>
        retryLambda ws 3 s = singleShot 500 PollWindowTitle s) \<and>
     (w \<in> set (m_polledWindows s) \<longrightarrow>
        timers (pollWindowTitle ws s)
          = insert_timer (clock s + 500, PollWindowTitle) (timers s) \<and>
        bus (pollWindowTitle ws s) = bus s) \<and>
     (\<exists>n rest.
        timers ((fire ws ^^ n) (onActiveClientChanged ws (run tr ActiveClientEffect)))
          = (clock (run tr ActiveClientEffect) + check_time (Suc k), check_kind (Suc k)) # rest \<and>
        clock ((fire ws ^^ Suc n) (onActiveClientChanged ws (run tr ActiveClientEffect)))
          = clock (run tr ActiveClientEffect) + check_time (Suc k) \<and>
        bus ((fire ws ^^ Suc n) (onActiveClientChanged ws (run tr ActiveClientEffect)))
          = bus ((fire ws ^^ n) (onActiveClientChanged ws (run tr ActiveClientEffect)))) \<and>
     ((activeWindow ws' = None \<or> (\<exists>h. activeWindow ws' = Some h \<and>
          (h \<notin> set (m_polledWindows st') \<or> usable ws' h)))
        \<longrightarrow> timers (pollWindowTitle ws' st') = timers st')"
proof -
  let ?st = "run tr ActiveClientEffect"
  have d: "retry_delay 1 = 50 \<and> retry_delay 2 = 100 \<and> retry_delay 3 = 200"
    by (simp add: retry_delay_def)
  have a: "timers (onActiveClientChanged ws s)
       = insert_timer (clock s + 50, RetryLambda 1) (timers s)"
    using assms
    by (auto simp: onActiveClientChanged_def Let_def usable_def sendDBusSignal_def
        retryActiveWindowTitle_def retry_delay_def singleShot_def)
  have q: "m_lastActiveWindow s = Some w \<longrightarrow>
        retryLambda ws 1 s = singleShot 100 (RetryLambda 2) s \<and>
        retryLambda ws 2 s = singleShot 200 (RetryLambda 3) s \<and>
        retryLambda ws 3 s = singleShot 500 PollWindowTitle s"
    using assms
    by (auto simp: retryLambda_def Let_def usable_def retryActiveWindowTitle_def retry_delay_def)
  have l: "w \<in> set (m_polledWindows s) \<longrightarrow>
        timers (pollWindowTitle ws s)
          = insert_timer (clock s + 500, PollWindowTitle) (timers s) \<and>
        bus (pollWindowTitle ws s) = bus s"
    using assms
    by (auto simp: pollWindowTitle_def Let_def usable_def qset_contains_def set_erase_inactive
        singleShot_def)
  have srt: "by_expiry (timers ?st)"
    by (rule by_expiry_run [OF by_expiry_ActiveClientEffect])
  from schedule_reached [OF assms srt, of k] obtain n rest where
    tn: "tracking w ((fire ws ^^ n) (onActiveClientChanged ws ?st))" and
    hn: "timers ((fire ws ^^ n) (onActiveClientChanged ws ?st))
           = (clock ?st + check_time (Suc k), check_kind (Suc k)) # rest" and
    cn: "clock ((fire ws ^^ n) (onActiveClientChanged ws ?st)) \<le> clock ?st + check_time (Suc k)"
    by blast
  from schedule_check_runs [OF assms tn hn cn]
  have "clock ((fire ws ^^ Suc n) (onActiveClientChanged ws ?st)) = clock ?st + check_time (Suc k) \<and>
        bus ((fire ws ^^ Suc n) (onActiveClientChanged ws ?st))
          = bus ((fire ws ^^ n) (onActiveClientChanged ws ?st))"
    by simp
  with hn have e: "\<exists>n rest.
        timers ((fire ws ^^ n) (onActiveClientChanged ws ?st))
          = (clock ?st + check_time (Suc k), check_kind (Suc k)) # rest \<and>
        clock ((fire ws ^^ Suc n) (onActiveClientChanged ws ?st))
          = clock ?st + check_time (Suc k) \<and>
        bus ((fire ws ^^ Suc n) (onActiveClientChanged ws ?st))
          = bus ((fire ws ^^ n) (onActiveClientChanged ws ?st))"
    by blast
  have p: "(activeWindow ws' = None \<or> (\<exists>h. activeWindow ws' = Some h \<and>
          (h \<notin> set (m_polledWindows st') \<or> usable ws' h)))
        \<longrightarrow> timers (pollWindowTitle ws' st') = timers st'"
    by (auto intro!: poll_stops)
  from d a q l e p show ?thesis by blast
qed

text \<open>
  The terminal is activated with an empty title at 100 ms, while the second quick check
  of Firefox is pending at 150 ms. The checks armed by this activation still come 50,
  150 and 350 ms after it: its third quick check is at the head of the queue after four
  expiries and runs at 450 ms. With the terminal tracked at time 0, a failed third quick
  check and a failed poll each arm the poll for 500 ms. A poll that finds the real title
  arms nothing.
\<close>

theorem retry_schedule_witness:
  "activeWindow konsole_blank = Some 2 \<and> \<not> usable konsole_blank 2 \<and>
   clock (run firefox_second_check_pending ActiveClientEffect) = 100 \<and>
   timers (run firefox_second_check_pending ActiveClientEffect) = [(150, RetryLambda 2)] \<and>
   (\<exists>n rest.
      timers ((fire konsole_blank ^^ n)
               (onActiveClientChanged konsole_blank
                 (run firefox_second_check_pending ActiveClientEffect)))
        = (450, RetryLambda 3) # rest \<and>
      clock ((fire konsole_blank ^^ Suc n)
               (onActiveClientChanged konsole_blank
                 (run firefox_second_check_pending ActiveClientEffect))) = 450 \<and>
      bus ((fire konsole_blank ^^ Suc n)
               (onActiveClientChanged konsole_blank
                 (run firefox_second_check_pending ActiveClientEffect)))
        = bus ((fire konsole_blank ^^ n)
               (onActiveClientChanged konsole_blank
                 (run firefox_second_check_pending ActiveClientEffect)))) \<and>
   timers ((fire konsole_blank ^^ 4)
            (onActiveClientChanged konsole_blank
              (run firefox_second_check_pending ActiveClientEffect)))
     = [(450, RetryLambda 3), (850, PollWindowTitle)] \<and>
   m_lastActiveWindow (firefox_retrying\<lparr>m_lastActiveWindow := Some 2, m_polledWindows := [2]\<rparr>)
     = Some 2 \<and>
   m_polledWindows (firefox_retrying\<lparr>m_lastActiveWindow := Some 2, m_polledWindows := [2]\<rparr>)
     = [2] \<and>
   timers (retryLambda konsole_blank 3
            (firefox_retrying\<lparr>m_lastActiveWindow := Some 2, m_polledWindows := [2]\<rparr>))
     = [(50, RetryLambda 1), (500, PollWindowTitle)] \<and>
   timers (pollWindowTitle konsole_blank
            (firefox_retrying\<lparr>m_lastActiveWindow := Some 2, m_polledWindows := [2]\<rparr>))
     = [(50, RetryLambda 1), (500, PollWindowTitle)] \<and>
   usable firefox_titled 1 \<and>
   timers (pollWindowTitle firefox_titled (idle\<lparr>m_polledWindows := [1]\<rparr>)) = []"
proof -
  have st: "run firefox_second_check_pending ActiveClientEffect =
      \<lparr>m_lastActiveWindow = Some 1, m_polledWindows = [1], captionConnections = [],
       bus = [DBusSignal ''Changed'' ''firefox'' []],
       timers = [(150, RetryLambda 2)], clock = 100\<rparr>"
    by (simp add: firefox_second_check_pending_def ActiveClientEffect_def singleShot_def
        deliver_def fire_def dispatch_def emitInitialState_def firefox_unfocused_def
        firefox_blank_def onActiveClientChanged_def sendDBusSignal_def hasProblematicTitle_def
        Let_def retryActiveWindowTitle_def retry_delay_def qset_insert_def retryLambda_def)
  have a: "activeWindow konsole_blank = Some 2" by (simp add: konsole_blank_def)
  have b: "\<not> usable konsole_blank 2"
    by (simp add: konsole_blank_def usable_def hasProblematicTitle_def)
  note sched = retry_schedule [OF a b,
      of "firefox_retrying\<lparr>m_lastActiveWindow := Some 2, m_polledWindows := [2]\<rparr>"
        firefox_second_check_pending 2 firefox_titled "idle\<lparr>m_polledWindows := [1]\<rparr>"]
  have c: "clock (run firefox_second_check_pending ActiveClientEffect) + check_time (Suc 2) = 450"
    by (simp add: st check_time_def)
  have k: "check_kind (Suc 2) = RetryLambda 3" by (simp add: check_kind_def)
  have e: "\<exists>n rest.
      timers ((fire konsole_blank ^^ n)
               (onActiveClientChanged konsole_blank
                 (run firefox_second_check_pending ActiveClientEffect)))
        = (450, RetryLambda 3) # rest \<and>
      clock ((fire konsole_blank ^^ Suc n)
               (onActiveClientChanged konsole_blank
                 (run firefox_second_check_pending ActiveClientEffect))) = 450 \<and>
      bus ((fire konsole_blank ^^ Suc n)
               (onActiveClientChanged konsole_blank
                 (run firefox_second_check_pending ActiveClientEffect)))
        = bus ((fire konsole_blank ^^ n)
               (onActiveClientChanged konsole_blank
                 (run firefox_second_check_pending ActiveClientEffect)))"
    using sched unfolding c k by blast
  have u: "usable firefox_titled 1"
    by (simp add: firefox_titled_def usable_def hasProblematicTitle_def startsWith_def)
  have p: "timers (pollWindowTitle firefox_titled (idle\<lparr>m_polledWindows := [1]\<rparr>)) = []"
    using sched u by (simp add: firefox_titled_def idle_def)
  have four: "(fire konsole_blank ^^ 4) s
      = fire konsole_blank (fire konsole_blank (fire konsole_blank (fire konsole_blank s)))"
    for s
    by (simp add: eval_nat_numeral)
  have f: "timers ((fire konsole_blank ^^ 4)
            (onActiveClientChanged konsole_blank
              (run firefox_second_check_pending ActiveClientEffect)))
     = [(450, RetryLambda 3), (850, PollWindowTitle)]"
    unfolding four
    by (simp add: st konsole_blank_def onActiveClientChanged_def sendDBusSignal_def
        hasProblematicTitle_def Let_def retryActiveWindowTitle_def retry_delay_def
        singleShot_def qset_insert_def fire_def dispatch_def retryLambda_def)
  have r: "timers (retryLambda konsole_blank 3
            (firefox_retrying\<lparr>m_lastActiveWindow := Some 2, m_polledWindows := [2]\<rparr>))
     = [(50, RetryLambda 1), (500, PollWindowTitle)]"
    using sched by (simp add: firefox_retrying_eq singleShot_def)
  have l: "timers (pollWindowTitle konsole_blank
            (firefox_retrying\<lparr>m_lastActiveWindow := Some 2, m_polledWindows := [2]\<rparr>))
     = [(50, RetryLambda 1), (500, PollWindowTitle)]"
    using sched by (simp add: firefox_retrying_eq)
  from a b st e f r l u p show ?thesis by simp
qed

text \<open>
  The claim's figures fail on the code: the second and third quick checks are armed 100
  and 200 ms after the check before them, not 150 and 350 ms, so they run 150 and 350 ms
  after the activation, not 200 and 550 ms.
\<close>

theorem retry_schedule_counterexample:
  "retry_delay 2 = 100 \<and> retry_delay 2 \<noteq> 150 \<and> retry_delay 3 = 200 \<and> retry_delay 3 \<noteq> 350 \<and>
   \<not> usable firefox_blank 1 \<and>
   clock ((fire firefox_blank ^^ 2) (onActiveClientChanged firefox_blank idle)) = 150 \<and>
   clock ((fire firefox_blank ^^ 2) (onActiveClientChanged firefox_blank idle)) \<noteq> 200 \<and>
   clock ((fire firefox_blank ^^ 3) (onActiveClientChanged firefox_blank idle)) = 350 \<and>
   clock ((fire firefox_blank ^^ 3) (onActiveClientChanged firefox_blank idle)) \<noteq> 550"
  by (simp add: retry_delay_def firefox_blank_def idle_def usable_def hasProblematicTitle_def
      startsWith_def onActiveClientChanged_def Let_def retryActiveWindowTitle_def
      sendDBusSignal_def singleShot_def qset_insert_def fire_def dispatch_def retryLambda_def
      numeral_3_eq_3 numeral_2_eq_2)

subsection \<open>Where the handlers disagree about a usable title\<close>

text \<open>
  What the caption handler does to the set, for the active window: it removes the window
  exactly when the new title is not problematic. Whether the title equals the class is
  not looked at.
\<close>

lemma captionChangedLambda_polled:
  assumes "activeWindow ws = Some w" and "w \<in> set (m_polledWindows st)"
  shows "w \<notin> set (m_polledWindows (captionChangedLambda ws w st))
           \<longleftrightarrow> \<not> hasProblematicTitle (caption ws w)"
  using assms
  by (simp add: captionChangedLambda_def Let_def sendDBusSignal_def qset_contains_def
      set_qset_remove)

text \<open>
  C3, at a failing input. The editor window (class \<open>code\<close>) is active and in
  \<open>m_polledWindows\<close>, and its caption changes from the empty string to \<open>code\<close>, the
  class itself, which is not a usable title. The caption handler removes the window from
  \<open>m_polledWindows\<close> all the same; the later poll then finds nothing to poll and arms no
  further tick, although the title is still unusable.
\<close>

theorem caption_equal_to_class_leaves_polled_set:
  "activeWindow code_placeholder = Some 1 \<and>
   caption code_placeholder 1 = resourceClass code_placeholder 1 \<and>
   \<not> usable code_placeholder 1 \<and>
   m_polledWindows code_retrying = [1] \<and>
   m_polledWindows (run [(code_placeholder, CaptionChanged 1)] code_retrying) = [] \<and>
   timers (run [(code_placeholder, CaptionChanged 1), (code_placeholder, Timeout),
                (code_placeholder, Timeout), (code_placeholder, Timeout),
                (code_placeholder, Timeout)] code_retrying) = []"
  by (simp add: code_retrying_def code_blank_def code_placeholder_def idle_def usable_def
      deliver_def onWindowAdded_def onActiveClientChanged_def captionChangedLambda_def
      sendDBusSignal_def hasProblematicTitle_def startsWith_def Let_def
      retryActiveWindowTitle_def singleShot_def retry_delay_def qset_insert_def
      qset_remove_def qset_contains_def fire_def dispatch_def retryLambda_def
      pollWindowTitle_def)

text \<open>
  What the retry lambda and the poll do when they find a usable title: one \<open>Changed\<close>
  signal, the window leaves the set, no timer is armed. The retry lambda also clears
  \<open>m_lastActiveWindow\<close>; the poll and the caption handler leave it as it is.
\<close>

lemma retryLambda_resolves:
  assumes "m_lastActiveWindow st = Some w" and "usable ws w"
  shows "retryLambda ws a st =
           st\<lparr>bus := bus st @ [DBusSignal ''Changed'' (resourceClass ws w) (caption ws w)],
              m_polledWindows := qset_remove w (m_polledWindows st),
              m_lastActiveWindow := None\<rparr>"
  using assms by (simp add: retryLambda_def usable_def Let_def sendDBusSignal_def)

lemma pollWindowTitle_resolves:
  assumes "activeWindow ws = Some w" and "w \<in> set (m_polledWindows st)" and "usable ws w"
  shows "bus (pollWindowTitle ws st)
           = bus st @ [DBusSignal ''Changed'' (resourceClass ws w) (caption ws w)] \<and>
         m_polledWindows (pollWindowTitle ws st) = [] \<and>
         timers (pollWindowTitle ws st) = timers st \<and>
         m_lastActiveWindow (pollWindowTitle ws st) = m_lastActiveWindow st"
proof -
  have "set (qset_remove w (erase_inactive (Some w) (m_polledWindows st))) = {}"
    by (auto simp: set_qset_remove set_erase_inactive)
  then have "qset_remove w (erase_inactive (Some w) (m_polledWindows st)) = []"
    by simp
  then show ?thesis
    using assms
    by (simp add: pollWindowTitle_def usable_def Let_def sendDBusSignal_def qset_contains_def
        set_erase_inactive)
qed

text \<open>
  C4, at a failing input. Firefox was created and activated with an empty title, so its
  first quick check is pending. 20 ms later its title becomes \<open>Mozilla Firefox\<close> and the
  caption handler reports it; the handler takes the window out of \<open>m_polledWindows\<close> but
  leaves \<open>m_lastActiveWindow\<close>, so the quick check at 50 ms finds the usable title too
  and sends the same \<open>Changed\<close> a second time.
\<close>

theorem caption_change_then_retry_sends_changed_twice:
  "activeWindow firefox_titled = Some 1 \<and> usable firefox_titled 1 \<and>
   m_lastActiveWindow firefox_retrying = Some 1 \<and>
   m_polledWindows firefox_retrying = [1] \<and>
   timers firefox_retrying = [(50, RetryLambda 1)] \<and>
   bus (run [(firefox_titled, Elapse 20), (firefox_titled, CaptionChanged 1)] firefox_retrying)
     = bus firefox_retrying @ [DBusSignal ''Changed'' ''firefox'' ''Mozilla Firefox''] \<and>
   m_lastActiveWindow
     (run [(firefox_titled, Elapse 20), (firefox_titled, CaptionChanged 1)] firefox_retrying)
     = Some 1 \<and>
   bus (run [(firefox_titled, Elapse 20), (firefox_titled, CaptionChanged 1),
             (firefox_titled, Timeout)] firefox_retrying)
     = bus firefox_retrying @ [DBusSignal ''Changed'' ''firefox'' ''Mozilla Firefox'',
                               DBusSignal ''Changed'' ''firefox'' ''Mozilla Firefox'']"
  by (simp add: firefox_retrying_eq firefox_titled_def usable_def deliver_def
      captionChangedLambda_def sendDBusSignal_def hasProblematicTitle_def startsWith_def
      Let_def qset_remove_def qset_contains_def fire_def dispatch_def retryLambda_def)

text \<open>
  What does hold for a quick check whose target is no longer active: when the title is
  still unusable, the target leaves the set, \<open>m_lastActiveWindow\<close> is cleared, nothing is
  sent and nothing is armed.
\<close>

lemma retryLambda_inactive_unusable:
  assumes "m_lastActiveWindow st = Some w" and "activeWindow ws \<noteq> Some w" and "\<not> usable ws w"
  shows "retryLambda ws a st =
           st\<lparr>m_polledWindows := qset_remove w (m_polledWindows st),
              m_lastActiveWindow := None\<rparr>"
  using assms
  by (auto simp: retryLambda_def usable_def Let_def retryActiveWindowTitle_def)

text \<open>
  C9, at a failing input. Firefox was activated with an empty title, so its first quick
  check is pending. The focus then goes to no window (the activation handler does
  nothing for that) and the title becomes \<open>Mozilla Firefox\<close> (the caption handler drops
  it, Firefox not being active). When the quick check fires, its target is not the
  active window; the lambda reads the title before anything else, finds it usable and
  sends \<open>Changed\<close> for the window that is not active. It does remove the target from
  the set, clear \<open>m_lastActiveWindow\<close> and arm nothing.
\<close>

theorem retry_of_inactive_window_sends_changed:
  "activeWindow firefox_unfocused = None \<and>
   run [(firefox_unfocused, WindowActivated), (firefox_unfocused, CaptionChanged 1)]
     firefox_retrying = firefox_retrying \<and>
   m_lastActiveWindow firefox_retrying = Some 1 \<and>
   timers firefox_retrying = [(50, RetryLambda 1)] \<and>
   bus (run [(firefox_unfocused, WindowActivated), (firefox_unfocused, CaptionChanged 1),
             (firefox_unfocused, Timeout)] firefox_retrying)
     = bus firefox_retrying @ [DBusSignal ''Changed'' ''firefox'' ''Mozilla Firefox''] \<and>
   m_polledWindows
     (run [(firefox_unfocused, WindowActivated), (firefox_unfocused, CaptionChanged 1),
           (firefox_unfocused, Timeout)] firefox_retrying) = [] \<and>
   m_lastActiveWindow
     (run [(firefox_unfocused, WindowActivated), (firefox_unfocused, CaptionChanged 1),
           (firefox_unfocused, Timeout)] firefox_retrying) = None \<and>
   timers
     (run [(firefox_unfocused, WindowActivated), (firefox_unfocused, CaptionChanged 1),
           (firefox_unfocused, Timeout)] firefox_retrying) = []"
  by (simp add: firefox_retrying_eq firefox_unfocused_def deliver_def
      onActiveClientChanged_def captionChangedLambda_def sendDBusSignal_def
      hasProblematicTitle_def startsWith_def Let_def qset_remove_def fire_def dispatch_def
      retryLambda_def)

subsection \<open>A window that stops being active\<close>

text \<open>
  The poll does clean the set: after it, every handle left is the active window with a
  title that is not usable yet.
\<close>

lemma pollWindowTitle_polled_active:
  assumes "h \<in> set (m_polledWindows (pollWindowTitle ws st))"
  shows "activeWindow ws = Some h \<and> \<not> usable ws h"
  using assms
  by (auto simp: pollWindowTitle_def Let_def sendDBusSignal_def singleShot_def set_qset_remove
      set_erase_inactive usable_def qset_contains_def split: option.splits if_splits)

text \<open>
  The abort of \<open>retryActiveWindowTitle\<close>, the resolution in the retry lambda and
  \<open>onWindowRemoved\<close> take the window out of the set when they clear
  \<open>m_lastActiveWindow\<close>.
\<close>

lemma retryActiveWindowTitle_abort_removes:
  assumes "m_lastActiveWindow st = Some w" and "activeWindow ws \<noteq> Some w"
  shows "m_lastActiveWindow (retryActiveWindowTitle ws a st) = None \<and>
         w \<notin> set (m_polledWindows (retryActiveWindowTitle ws a st))"
  using assms by (auto simp: retryActiveWindowTitle_def set_qset_remove)

text \<open>
  C6, at a failing input. Firefox (window 1) is activated with an empty title and so
  enters \<open>m_polledWindows\<close>; the terminal (window 2) is then activated with a good
  title. The activation handler clears \<open>m_lastActiveWindow\<close> but leaves window 1 in the
  set: after that activation, and still after the pending quick check has fired, window
  1 is in the set although it is not the active window, and no timer is left that would
  remove it. The stale handle shows later: the editor (window 3) is activated with an
  empty title and reaches the poll, Firefox is activated again, now with its real title,
  and the poll, finding Firefox in the set, sends its \<open>Changed\<close> a second time.
\<close>

theorem deactivated_window_stays_in_polled_set:
  "activeWindow konsole_focused = Some 2 \<and>
   m_polledWindows
     (run [(firefox_blank, WindowActivated), (konsole_focused, WindowActivated)] idle) = [1] \<and>
   m_lastActiveWindow
     (run [(firefox_blank, WindowActivated), (konsole_focused, WindowActivated)] idle) = None \<and>
   m_polledWindows
     (run [(firefox_blank, WindowActivated), (konsole_focused, WindowActivated),
           (konsole_focused, Timeout)] idle) = [1] \<and>
   timers
     (run [(firefox_blank, WindowActivated), (konsole_focused, WindowActivated),
           (konsole_focused, Timeout)] idle) = [] \<and>
   m_polledWindows
     (run [(firefox_blank, WindowActivated), (konsole_focused, WindowActivated),
           (konsole_focused, Timeout), (editor_blank, WindowActivated),
           (editor_blank, Timeout), (editor_blank, Timeout), (editor_blank, Timeout),
           (firefox_titled, WindowActivated)] idle) = [1, 3] \<and>
   bus
     (run [(firefox_blank, WindowActivated), (konsole_focused, WindowActivated),
           (konsole_focused, Timeout), (editor_blank, WindowActivated),
           (editor_blank, Timeout), (editor_blank, Timeout), (editor_blank, Timeout),
           (firefox_titled, WindowActivated), (firefox_titled, Timeout)] idle)
     = [DBusSignal ''Changed'' ''firefox'' [],
        DBusSignal ''Changed'' ''konsole'' ''bash'',
        DBusSignal ''Changed'' ''code'' [],
        DBusSignal ''Changed'' ''firefox'' ''Mozilla Firefox'',
        DBusSignal ''Changed'' ''firefox'' ''Mozilla Firefox'']"
  by (simp add: firefox_blank_def konsole_focused_def editor_blank_def firefox_titled_def
      idle_def deliver_def onActiveClientChanged_def sendDBusSignal_def
      hasProblematicTitle_def startsWith_def Let_def retryActiveWindowTitle_def singleShot_def
      retry_delay_def qset_insert_def qset_remove_def qset_contains_def fire_def dispatch_def
      retryLambda_def pollWindowTitle_def)

end
